theory Spec2Isabelle
  imports Main "HOL-Library.Sublist"
begin

chapter \<open>\<^verbatim>\<open>roll_post.py\<close>: give a dated blog post today's date\<close>

text \<open>
  The script, with its line numbers:

  \<^verbatim>\<open> 6  post = sys.argv[1]\<close>

  \<^verbatim>\<open> 7  parts = re.match('_posts/(\d{4})-(\d{2})-(\d{2})-(?P<title>.*).md', post)\<close>

  \<^verbatim>\<open> 8  parts = parts.groupdict()\<close>

  \<^verbatim>\<open> 9  today = datetime.datetime.today()\<close>

  \<^verbatim>\<open>10  new_post = f'_posts/{today.strftime("%Y-%m-%d")}-{parts["title"]}.md'\<close>

  \<^verbatim>\<open>12  os.rename(post, new_post)\<close>

  Its inputs are \<^verbatim>\<open>sys.argv\<close>, the clock and the files on disk. The three library calls are
  modelled as Python documents them: \<^verbatim>\<open>re.match\<close>, \<^verbatim>\<open>strftime\<close> and \<^verbatim>\<open>os.rename\<close>.
\<close>

section \<open>The regular expression\<close>

text \<open>
  The constructs the pattern of line 7 uses are modelled as Python's backtracking matcher
  runs them: single-character matchers (a literal, \<^verbatim>\<open>\d\<close>, and \<^verbatim>\<open>.\<close>, which without
  the \<^verbatim>\<open>DOTALL\<close> flag accepts every character but the line feed), the counted repetition
  \<^verbatim>\<open>{n}\<close>, the greedy \<^verbatim>\<open>*\<close>, capturing groups (named or not) and concatenation.

  A character of the model is a code point below 256, so a path is a string of such code
  points. On that range \<^verbatim>\<open>\d\<close> accepts exactly the ten ASCII digits.
\<close>

datatype cclass = Lit char | Digit | Dot

fun accepts :: "cclass \<Rightarrow> char \<Rightarrow> bool" where
  "accepts (Lit a) c = (c = a)"
| "accepts Digit c = (c \<in> set ''0123456789'')"
| "accepts Dot c = (c \<noteq> CHR 0x0A)"

datatype regex =
    One cclass
  | Rep nat cclass
  | Star cclass
  | Group "string option" regex
  | Eps
  | Seq regex regex

type_synonym groups = "(string option \<times> string) list"

text \<open>
  A matcher returns every way it can succeed, as the remaining input, in the order in which
  backtracking tries them. The greedy star tries the longest run first and gives characters
  back one at a time.
\<close>

fun rep :: "nat \<Rightarrow> cclass \<Rightarrow> string \<Rightarrow> string list" where
  "rep 0 k s = [s]"
| "rep (Suc n) k [] = []"
| "rep (Suc n) k (c # s) = (if accepts k c then rep n k s else [])"

fun star :: "cclass \<Rightarrow> string \<Rightarrow> string list" where
  "star k [] = [[]]"
| "star k (c # s) = (if accepts k c then star k s @ [c # s] else [c # s])"

fun run :: "regex \<Rightarrow> string \<Rightarrow> groups \<Rightarrow> (string \<times> groups) list" where
  "run (One k) s gs = map (\<lambda>s'. (s', gs)) (rep 1 k s)"
| "run (Rep n k) s gs = map (\<lambda>s'. (s', gs)) (rep n k s)"
| "run (Star k) s gs = map (\<lambda>s'. (s', gs)) (star k s)"
| "run (Group name r) s gs =
     map (\<lambda>(s', gs'). (s', gs' @ [(name, take (length s - length s') s)])) (run r s gs)"
| "run Eps s gs = [(s, gs)]"
| "run (Seq r1 r2) s gs = concat (map (\<lambda>(s', gs'). run r2 s' gs') (run r1 s gs))"

definition seq :: "regex list \<Rightarrow> regex" where
  "seq rs = foldr Seq rs Eps"

definition str :: "string \<Rightarrow> regex" where
  "str l = seq (map (\<lambda>c. One (Lit c)) l)"

text \<open>
  \<^verbatim>\<open>re.match\<close> anchors the pattern at the start of the string only, and returns the first
  success (or \<^verbatim>\<open>None\<close>); \<^verbatim>\<open>groupdict()\<close> keeps the named groups.
\<close>

definition re_match :: "regex \<Rightarrow> string \<Rightarrow> groups option" where
  "re_match r s = (case run r s [] of [] \<Rightarrow> None | (rest, gs) # _ \<Rightarrow> Some gs)"

fun groupdict :: "groups \<Rightarrow> (string \<rightharpoonup> string)" where
  "groupdict [] = Map.empty"
| "groupdict ((None, v) # gs) = groupdict gs"
| "groupdict ((Some n, v) # gs) = (groupdict gs)(n \<mapsto> v)"

definition pattern :: regex where
  "pattern = seq [str ''_posts/'', Group None (Rep 4 Digit), str ''-'',
                  Group None (Rep 2 Digit), str ''-'', Group None (Rep 2 Digit), str ''-'',
                  Group (Some ''title'') (Star Dot), One Dot, str ''md'']"

section \<open>Today's date\<close>

text \<open>
  \<^verbatim>\<open>datetime.datetime.today()\<close> reads the clock, so the date is an input of the model; a
  \<^verbatim>\<open>datetime\<close> has a year from 1 to 9999, a month from 1 to 12 and a day from 1 to 31 at
  most. \<^verbatim>\<open>strftime("%Y-%m-%d")\<close> writes the year with four digits (\<^verbatim>\<open>0001\<close> to
  \<^verbatim>\<open>9999\<close> in Python's table of format codes) and the month and the day with two,
  zero-padded.
\<close>

record date =
  year :: nat
  month :: nat
  day :: nat

definition valid_date :: "date \<Rightarrow> bool" where
  "valid_date d = (1 \<le> year d \<and> year d \<le> 9999 \<and> 1 \<le> month d \<and> month d \<le> 12
                    \<and> 1 \<le> day d \<and> day d \<le> 31)"

definition digit :: "nat \<Rightarrow> char" where
  "digit n = ''0123456789'' ! (n mod 10)"

definition strftime_Ymd :: "date \<Rightarrow> string" where
  "strftime_Ymd d =
     [digit (year d div 1000), digit (year d div 100), digit (year d div 10), digit (year d)]
     @ ''-'' @ [digit (month d div 10), digit (month d)]
     @ ''-'' @ [digit (day d div 10), digit (day d)]"

section \<open>The file system and the script\<close>

text \<open>
  The file system is a list of entries: a path with what it names, a regular file with its
  contents or a directory. The script hands its paths to the operating system as they are,
  and the model looks them up as they are, from the working directory; a path names the entry
  stored under exactly that string, and its directory is the part before the last separator
  (the working directory when there is none). The separator is the slash, and on Windows
  the backslash as well. Components \<^verbatim>\<open>.\<close> and \<^verbatim>\<open>..\<close>, repeated separators, links and
  names that differ only in case are outside the model.

  The operating system can refuse a rename for a reason that the entries do not show: the
  permissions (the documentation of \<^verbatim>\<open>os.rename\<close> says "if the user has permission"), a
  device that is full or read-only, a name it does not accept. \<open>refusals\<close> lists the pairs
  of paths it refuses, each with the exception raised.
\<close>

datatype exn =
    IndexError | AttributeError | KeyError
  | FileNotFoundError | FileExistsError | IsADirectoryError | NotADirectoryError
  | PermissionError | OSError

datatype platform = Posix | Windows

datatype node = File string | Dir

record fs =
  entries :: "(string \<times> node) list"
  refusals :: "((string \<times> string) \<times> exn) list"

definition is_sep :: "platform \<Rightarrow> char \<Rightarrow> bool" where
  "is_sep pf c = (c = CHR ''/'' \<or> pf = Windows \<and> c = CHR 0x5C)"

definition dirname :: "platform \<Rightarrow> string \<Rightarrow> string" where
  "dirname pf p = rev (drop 1 (dropWhile (\<lambda>c. \<not> is_sep pf c) (rev p)))"

definition under :: "platform \<Rightarrow> string \<Rightarrow> string \<Rightarrow> bool" where
  "under pf d p =
     (take (length d) p = d
      \<and> (case drop (length d) p of [] \<Rightarrow> False | c # _ \<Rightarrow> is_sep pf c))"

text \<open>
  The directory of the destination must exist. Where a regular file stands in its place,
  Unix raises \<^verbatim>\<open>NotADirectoryError\<close>; Windows reports the path as not found.
\<close>

definition parent_error :: "platform \<Rightarrow> (string \<times> node) list \<Rightarrow> string \<Rightarrow> exn option" where
  "parent_error pf es p =
     (if dirname pf p = [] then None
      else case map_of es (dirname pf p) of
             None \<Rightarrow> Some FileNotFoundError
           | Some (File _) \<Rightarrow> Some (if pf = Windows then FileNotFoundError else NotADirectoryError)
           | Some Dir \<Rightarrow> None)"

text \<open>
  The entries after a rename: what was at the destination is gone, the source is found under
  the destination's path, and so is everything below a directory that was moved.
\<close>

definition moved ::
  "platform \<Rightarrow> node \<Rightarrow> string \<Rightarrow> string \<Rightarrow> (string \<times> node) list \<Rightarrow> (string \<times> node) list" where
  "moved pf node src dst es =
     map (\<lambda>(p, n). (if p = src then dst
                    else if node = Dir \<and> under pf src p then dst @ drop (length src) p
                    else p, n))
       (filter (\<lambda>(p, n). p \<noteq> dst) es)"

text \<open>
  \<^verbatim>\<open>os.rename(src, dst)\<close>, after its documentation and \<^verbatim>\<open>rename(2)\<close>. A missing source
  raises \<^verbatim>\<open>FileNotFoundError\<close>. Renaming a path to itself does nothing and succeeds. A
  directory cannot be moved below itself. When the destination exists, Windows raises
  \<^verbatim>\<open>FileExistsError\<close>; on Unix a file over a directory raises \<^verbatim>\<open>IsADirectoryError\<close>, a
  directory over a file \<^verbatim>\<open>NotADirectoryError\<close>, a directory over a directory that is not
  empty \<^verbatim>\<open>OSError\<close>, and in the other cases the destination is replaced silently. A failed
  rename changes nothing.
\<close>

definition os_rename :: "platform \<Rightarrow> string \<Rightarrow> string \<Rightarrow> fs \<Rightarrow> exn + fs" where
  "os_rename pf src dst files =
     (case map_of (refusals files) (src, dst) of
        Some e \<Rightarrow> Inl e
      | None \<Rightarrow>
          (case map_of (entries files) src of
             None \<Rightarrow> Inl FileNotFoundError
           | Some node \<Rightarrow>
               if dst = src then Inr files
               else if node = Dir \<and> under pf src dst then Inl OSError
               else
                 (case map_of (entries files) dst of
                    None \<Rightarrow>
                      (case parent_error pf (entries files) dst of
                         Some e \<Rightarrow> Inl e
                       | None \<Rightarrow> Inr (files\<lparr>entries := moved pf node src dst (entries files)\<rparr>))
                  | Some old \<Rightarrow>
                      if pf = Windows then Inl FileExistsError
                      else if node \<noteq> Dir \<and> old = Dir then Inl IsADirectoryError
                      else if node = Dir \<and> old \<noteq> Dir then Inl NotADirectoryError
                      else if node = Dir \<and> list_ex (\<lambda>(p, n). under pf dst p) (entries files)
                        then Inl OSError
                      else Inr (files\<lparr>entries := moved pf node src dst (entries files)\<rparr>))))"

text \<open>
  Lines 7 and 8: \<^verbatim>\<open>parts = re.match(...)\<close>, then \<^verbatim>\<open>parts.groupdict()\<close>, which raises
  \<^verbatim>\<open>AttributeError\<close> when the match returned \<^verbatim>\<open>None\<close>.
\<close>

definition parts :: "string \<Rightarrow> exn + (string \<rightharpoonup> string)" where
  "parts post =
     (case re_match pattern post of
        None \<Rightarrow> Inl AttributeError
      | Some m \<Rightarrow> Inr (groupdict m))"

text \<open>Lines 7 to 10: the new path, \<^verbatim>\<open>f'_posts/{today.strftime("%Y-%m-%d")}-{parts["title"]}.md'\<close>.\<close>

definition new_post :: "date \<Rightarrow> string \<Rightarrow> exn + string" where
  "new_post today post =
     (case parts post of
        Inl e \<Rightarrow> Inl e
      | Inr d \<Rightarrow>
          (case d ''title'' of
             None \<Rightarrow> Inl KeyError
           | Some title \<Rightarrow> Inr (''_posts/'' @ strftime_Ymd today @ ''-'' @ title @ ''.md'')))"

text \<open>
  The whole script, from \<^verbatim>\<open>sys.argv\<close> and the files on disk to the state of the process
  when it ends: the exit code (1 after an exception that nothing catches), the exception,
  the call of \<^verbatim>\<open>os.rename\<close> if line 12 was reached, and the files.
\<close>

record outcome =
  exit_code :: nat
  raised :: "exn option"
  rename_call :: "(string \<times> string) option"
  disk :: fs

definition roll_post :: "platform \<Rightarrow> date \<Rightarrow> string list \<Rightarrow> fs \<Rightarrow> outcome" where
  "roll_post pf today argv files =
     (case drop 1 argv of
        [] \<Rightarrow> \<lparr>exit_code = 1, raised = Some IndexError, rename_call = None, disk = files\<rparr>
      | post # _ \<Rightarrow>
          (case new_post today post of
             Inl e \<Rightarrow> \<lparr>exit_code = 1, raised = Some e, rename_call = None, disk = files\<rparr>
           | Inr target \<Rightarrow>
               (case os_rename pf post target files of
                  Inl e \<Rightarrow> \<lparr>exit_code = 1, raised = Some e,
                             rename_call = Some (post, target), disk = files\<rparr>
                | Inr files' \<Rightarrow> \<lparr>exit_code = 0, raised = None,
                                  rename_call = Some (post, target), disk = files'\<rparr>)))"

section \<open>Notions used to state the properties\<close>

text \<open>
  The part of the pattern after the date, \<^verbatim>\<open>(?P<title>.*).md\<close>, and a group of exactly
  \<open>n\<close> digits.
\<close>

definition title_md :: regex where
  "title_md = seq [Group (Some ''title'') (Star Dot), One Dot, str ''md'']"

definition digits :: "nat \<Rightarrow> string \<Rightarrow> bool" where
  "digits n s = (length s = n \<and> list_all (accepts Digit) s)"

section \<open>How the pattern runs\<close>

lemma seq_Nil: "seq [] = Eps"
  by (simp add: seq_def)

lemma seq_Cons: "seq (r # rs) = Seq r (seq rs)"
  by (simp add: seq_def)

lemma rep_eq:
  "rep n k s = (if n \<le> length s \<and> list_all (accepts k) (take n s) then [drop n s] else [])"
  by (induction n k s rule: rep.induct) auto

lemma run_str:
  "run (str l) s gs = (if prefix l s then [(drop (length l) s, gs)] else [])"
proof (induction l arbitrary: s)
  case Nil
  show ?case by (simp add: str_def seq_Nil)
next
  case (Cons c l)
  have unfold: "str (c # l) = Seq (One (Lit c)) (str l)"
    by (simp add: str_def seq_Cons)
  show ?case
    by (cases s) (simp_all add: unfold Cons.IH)
qed

lemma run_Group_Rep:
  "run (Group name (Rep n k)) s gs =
     (if n \<le> length s \<and> list_all (accepts k) (take n s)
      then [(drop n s, gs @ [(name, take n s)])] else [])"
  by (simp add: rep_eq)

lemma pattern_unfold:
  "pattern = Seq (str ''_posts/'') (Seq (Group None (Rep 4 Digit)) (Seq (str ''-'')
      (Seq (Group None (Rep 2 Digit)) (Seq (str ''-'') (Seq (Group None (Rep 2 Digit))
      (Seq (str ''-'') title_md))))))"
  by (simp add: pattern_def title_md_def seq_Cons)

lemma star_sound:
  "s' \<in> set (star k s) \<Longrightarrow> \<exists>t. s = t @ s' \<and> list_all (accepts k) t"
proof (induction s)
  case Nil
  then show ?case by simp
next
  case (Cons c s)
  show ?case
  proof (cases "s' = c # s")
    case True
    then show ?thesis by simp
  next
    case False
    with Cons.prems have "accepts k c" and "s' \<in> set (star k s)"
      by (auto split: if_splits)
    with Cons.IH obtain t where "s = t @ s'" and "list_all (accepts k) t"
      by blast
    then have "c # s = (c # t) @ s' \<and> list_all (accepts k) (c # t)"
      using \<open>accepts k c\<close> by simp
    then show ?thesis by blast
  qed
qed

lemma star_append:
  "list_all (accepts k) t \<Longrightarrow> \<exists>X. star k (t @ u) = star k u @ X"
  by (induction t) auto

lemma run_pattern_dated:
  assumes "digits 4 y" "digits 2 m" "digits 2 d"
  shows "run pattern (''_posts/'' @ y @ ''-'' @ m @ ''-'' @ d @ ''-'' @ u) []
         = run title_md u [(None, y), (None, m), (None, d)]"
  using assms
  by (simp add: pattern_unfold run_str run_Group_Rep digits_def del: run.simps(2,4))

lemma run_title_md_sound:
  assumes "(rest, gs') \<in> set (run title_md u gs)"
  shows "\<exists>t c. u = t @ c # ''md'' @ rest \<and> gs' = gs @ [(Some ''title'', t)]
               \<and> list_all (accepts Dot) (t @ [c])"
proof -
  from assms obtain s' where s': "s' \<in> set (star Dot u)"
    and r: "(rest, gs') \<in> set (run (Seq (One Dot) (str ''md'')) s'
                (gs @ [(Some ''title'', take (length u - length s') u)]))"
    by (auto simp: title_md_def seq_Cons seq_Nil run_str)
  from star_sound [OF s'] obtain t where u: "u = t @ s'" and t: "list_all (accepts Dot) t"
    by blast
  from r have "\<exists>c. s' = c # ''md'' @ rest \<and> accepts Dot c
    \<and> gs' = gs @ [(Some ''title'', take (length u - length s') u)]"
    by (cases s') (auto simp: run_str prefix_def split: if_splits)
  with u t show ?thesis by auto
qed

lemma run_title_md_first:
  assumes "list_all (accepts Dot) t"
  shows "\<exists>X. run title_md (t @ ''.md'') gs = ([], gs @ [(Some ''title'', t)]) # X"
proof -
  from star_append [OF assms] obtain X where "star Dot (t @ ''.md'') = star Dot ''.md'' @ X"
    by blast
  then show ?thesis
    by (simp add: title_md_def seq_Cons seq_Nil run_str)
qed

lemma run_str_mem:
  assumes "(rest, gs') \<in> set (run (Seq (str l) r) s gs)"
  shows "\<exists>s1. s = l @ s1 \<and> (rest, gs') \<in> set (run r s1 gs)"
  using assms by (auto simp: run_str prefix_def split: if_splits)

lemma run_digits_mem:
  assumes "(rest, gs') \<in> set (run (Seq (Group name (Rep n Digit)) r) s gs)"
  shows "\<exists>x s1. s = x @ s1 \<and> digits n x \<and> (rest, gs') \<in> set (run r s1 (gs @ [(name, x)]))"
proof -
  from assms have n: "n \<le> length s" and d: "list_all (accepts Digit) (take n s)"
    and r: "(rest, gs') \<in> set (run r (drop n s) (gs @ [(name, take n s)]))"
    by (auto simp: run_Group_Rep simp del: run.simps(2,4) split: if_splits)
  have "s = take n s @ drop n s" by simp
  moreover from n d have "digits n (take n s)" by (simp add: digits_def)
  ultimately show ?thesis using r by blast
qed

lemma run_str_digits_mem:
  assumes "(rest, gs') \<in> set (run (Seq (str l) (Seq (Group name (Rep n Digit)) r)) s gs)"
  shows "\<exists>x s1. s = l @ x @ s1 \<and> digits n x \<and> (rest, gs') \<in> set (run r s1 (gs @ [(name, x)]))"
proof -
  from run_str_mem [OF assms] obtain s0 where s: "s = l @ s0"
    and r: "(rest, gs') \<in> set (run (Seq (Group name (Rep n Digit)) r) s0 gs)"
    by blast
  from run_digits_mem [OF r] s show ?thesis by blast
qed

lemma run_pattern_sound:
  assumes "(rest, gs) \<in> set (run pattern post [])"
  shows "\<exists>y m d t c. digits 4 y \<and> digits 2 m \<and> digits 2 d \<and> list_all (accepts Dot) (t @ [c])
           \<and> post = ''_posts/'' @ y @ ''-'' @ m @ ''-'' @ d @ ''-'' @ t @ c # ''md'' @ rest
           \<and> gs = [(None, y), (None, m), (None, d), (Some ''title'', t)]"
proof -
  from assms have "(rest, gs) \<in> set (run (Seq (str ''_posts/'') (Seq (Group None (Rep 4 Digit))
      (Seq (str ''-'') (Seq (Group None (Rep 2 Digit)) (Seq (str ''-'') (Seq (Group None (Rep 2 Digit))
      (Seq (str ''-'') title_md))))))) post [])"
    by (simp only: pattern_unfold)
  from run_str_digits_mem [OF this] obtain y s2 where 1: "post = ''_posts/'' @ y @ s2" "digits 4 y"
    and r2: "(rest, gs) \<in> set (run (Seq (str ''-'') (Seq (Group None (Rep 2 Digit))
               (Seq (str ''-'') (Seq (Group None (Rep 2 Digit)) (Seq (str ''-'') title_md)))))
               s2 ([] @ [(None, y)]))"
    by blast
  from run_str_digits_mem [OF r2] obtain m s4 where 2: "s2 = ''-'' @ m @ s4" "digits 2 m"
    and r4: "(rest, gs) \<in> set (run (Seq (str ''-'') (Seq (Group None (Rep 2 Digit))
               (Seq (str ''-'') title_md))) s4 (([] @ [(None, y)]) @ [(None, m)]))"
    by blast
  from run_str_digits_mem [OF r4] obtain d s6 where 3: "s4 = ''-'' @ d @ s6" "digits 2 d"
    and r6: "(rest, gs) \<in> set (run (Seq (str ''-'') title_md) s6
               ((([] @ [(None, y)]) @ [(None, m)]) @ [(None, d)]))"
    by blast
  from run_str_mem [OF r6] obtain u where 4: "s6 = ''-'' @ u"
    and r7: "(rest, gs) \<in> set (run title_md u ((([] @ [(None, y)]) @ [(None, m)]) @ [(None, d)]))"
    by blast
  from run_title_md_sound [OF r7] obtain t c where 5: "u = t @ c # ''md'' @ rest"
    "gs = [(None, y), (None, m), (None, d), (Some ''title'', t)]" "list_all (accepts Dot) (t @ [c])"
    by auto
  from 1 2 3 4 5 show ?thesis by auto
qed

lemma re_match_sound:
  assumes "re_match pattern post = Some gs"
  shows "\<exists>y m d t c rest. digits 4 y \<and> digits 2 m \<and> digits 2 d \<and> list_all (accepts Dot) (t @ [c])
           \<and> post = ''_posts/'' @ y @ ''-'' @ m @ ''-'' @ d @ ''-'' @ t @ c # ''md'' @ rest
           \<and> gs = [(None, y), (None, m), (None, d), (Some ''title'', t)]"
proof -
  from assms obtain rest where "(rest, gs) \<in> set (run pattern post [])"
    by (auto simp: re_match_def split: list.splits)
  from run_pattern_sound [OF this] show ?thesis by blast
qed

lemma re_match_dated:
  assumes "digits 4 y" "digits 2 m" "digits 2 d" "list_all (accepts Dot) t"
  shows "re_match pattern (''_posts/'' @ y @ ''-'' @ m @ ''-'' @ d @ ''-'' @ t @ ''.md'')
         = Some [(None, y), (None, m), (None, d), (Some ''title'', t)]"
proof -
  from run_title_md_first [OF assms(4)] obtain X where
    "run title_md (t @ ''.md'') [(None, y), (None, m), (None, d)]
     = ([], [(None, y), (None, m), (None, d)] @ [(Some ''title'', t)]) # X"
    by blast
  with run_pattern_dated [OF assms(1-3), of "t @ ''.md''"] show ?thesis
    by (simp add: re_match_def)
qed

lemma new_post_of_match:
  assumes "re_match pattern post = Some gs"
  shows "\<exists>t. groupdict gs ''title'' = Some t
           \<and> new_post today post = Inr (''_posts/'' @ strftime_Ymd today @ ''-'' @ t @ ''.md'')"
  using re_match_sound [OF assms] assms by (auto simp: new_post_def parts_def)

lemma new_post_dated:
  assumes "digits 4 y" "digits 2 m" "digits 2 d" "list_all (accepts Dot) t"
  shows "new_post today (''_posts/'' @ y @ ''-'' @ m @ ''-'' @ d @ ''-'' @ t @ ''.md'')
         = Inr (''_posts/'' @ strftime_Ymd today @ ''-'' @ t @ ''.md'')"
  using re_match_dated [OF assms] by (simp add: new_post_def parts_def)

lemma new_post_unprefixed:
  assumes "\<not> prefix ''_posts/'' post"
  shows "new_post today post = Inl AttributeError"
proof -
  have "run pattern post [] = []"
    using assms unfolding pattern_unfold by (simp add: run_str)
  then show ?thesis by (simp add: new_post_def parts_def re_match_def)
qed

section \<open>The formatted date\<close>

lemma digit_eq_iff: "digit a = digit b \<longleftrightarrow> a mod 10 = b mod 10"
proof -
  have "distinct ''0123456789''" by simp
  then show ?thesis
    unfolding digit_def by (subst nth_eq_iff_index_eq) simp_all
qed

lemma div10_mod10_eq:
  fixes a b :: nat
  assumes "a div 10 = b div 10" and "a mod 10 = b mod 10"
  shows "a = b"
proof -
  have "a = a div 10 * 10 + a mod 10" by simp
  also have "\<dots> = b div 10 * 10 + b mod 10" by (simp only: assms)
  also have "\<dots> = b" by simp
  finally show ?thesis .
qed

lemma two_digits_eq:
  fixes a b :: nat
  assumes "a < 100" "b < 100"
    and "a div 10 mod 10 = b div 10 mod 10" and "a mod 10 = b mod 10"
  shows "a = b"
proof -
  from assms(1,2) have "a div 10 < 10" "b div 10 < 10" by simp_all
  with assms(3) have "a div 10 = b div 10" by simp
  from this assms(4) show ?thesis by (rule div10_mod10_eq)
qed

lemma four_digits_eq:
  fixes a b :: nat
  assumes "a < 10000" "b < 10000"
    and "a div 1000 mod 10 = b div 1000 mod 10" and "a div 100 mod 10 = b div 100 mod 10"
    and "a div 10 mod 10 = b div 10 mod 10" and "a mod 10 = b mod 10"
  shows "a = b"
proof -
  have d3: "x div 1000 = x div 100 div 10" for x :: nat
    using div_mult2_eq [of x 100 10] by simp
  have d2: "x div 100 = x div 10 div 10" for x :: nat
    using div_mult2_eq [of x 10 10] by simp
  from assms(1,2) have "a div 100 < 100" "b div 100 < 100" by simp_all
  moreover from assms(3) have "a div 100 div 10 mod 10 = b div 100 div 10 mod 10"
    by (simp only: d3)
  ultimately have "a div 100 = b div 100"
    using assms(4) by (rule two_digits_eq)
  then have "a div 10 div 10 = b div 10 div 10" by (simp only: d2)
  from this assms(5) have "a div 10 = b div 10" by (rule div10_mod10_eq)
  from this assms(6) show ?thesis by (rule div10_mod10_eq)
qed

lemma strftime_Ymd_inj:
  assumes "valid_date a" "valid_date b" "strftime_Ymd a = strftime_Ymd b"
  shows "a = b"
proof -
  from assms(3) have
    y: "year a div 1000 mod 10 = year b div 1000 mod 10" "year a div 100 mod 10 = year b div 100 mod 10"
       "year a div 10 mod 10 = year b div 10 mod 10" "year a mod 10 = year b mod 10"
    and m: "month a div 10 mod 10 = month b div 10 mod 10" "month a mod 10 = month b mod 10"
    and d: "day a div 10 mod 10 = day b div 10 mod 10" "day a mod 10 = day b mod 10"
    by (simp_all add: strftime_Ymd_def digit_eq_iff)
  from assms(1,2) have b: "year a < 10000" "year b < 10000" "month a < 100" "month b < 100"
    "day a < 100" "day b < 100"
    by (simp_all add: valid_date_def)
  from b(1,2) y have "year a = year b" by (rule four_digits_eq)
  moreover from b(3,4) m have "month a = month b" by (rule two_digits_eq)
  moreover from b(5,6) d have "day a = day b" by (rule two_digits_eq)
  ultimately show ?thesis by simp
qed

section \<open>The script\<close>

lemma accepts_Dot_iff: "list_all (accepts Dot) t \<longleftrightarrow> CHR 0x0A \<notin> set t"
  by (induction t) auto

lemma roll_post_no_match:
  assumes "new_post today post = Inl e"
  shows "roll_post pf today (prog # post # rest) files
         = \<lparr>exit_code = 1, raised = Some e, rename_call = None, disk = files\<rparr>"
  using assms by (simp add: roll_post_def)

lemma roll_post_renames:
  assumes "new_post today post = Inr target"
  shows "roll_post pf today (prog # post # rest) files
         = (case os_rename pf post target files of
              Inl e \<Rightarrow> \<lparr>exit_code = 1, raised = Some e,
                         rename_call = Some (post, target), disk = files\<rparr>
            | Inr files' \<Rightarrow> \<lparr>exit_code = 0, raised = None,
                              rename_call = Some (post, target), disk = files'\<rparr>)"
  using assms by (simp add: roll_post_def)

lemma run_groups:
  "run r s (gs0 @ gs) = map (\<lambda>(s', gs'). (s', gs0 @ gs')) (run r s gs)"
  by (induction r arbitrary: s gs) (simp_all add: map_concat o_def split_def)

lemma parts_dated:
  assumes "digits 4 y" "digits 2 m" "digits 2 d"
  shows "parts (''_posts/'' @ y @ ''-'' @ m @ ''-'' @ d @ ''-'' @ u)
         = (case run title_md u [] of
              [] \<Rightarrow> Inl AttributeError
            | (rest, gs) # _ \<Rightarrow> Inr (groupdict gs))"
proof -
  have "run title_md u ([(None, y), (None, m), (None, d)] @ [])
        = map (\<lambda>(s', gs'). (s', [(None, y), (None, m), (None, d)] @ gs')) (run title_md u [])"
    by (rule run_groups)
  with run_pattern_dated [OF assms, of u] show ?thesis
    by (simp add: parts_def re_match_def split: list.splits)
qed




text \<open>The facts that evaluate the script on a concrete input.\<close>

lemmas script_eval = roll_post_def new_post_def parts_def re_match_def pattern_unfold run_str rep_eq
      title_md_def seq_Cons seq_Nil strftime_Ymd_def digit_def os_rename_def parent_error_def
      dirname_def under_def moved_def is_sep_def

section \<open>Properties of the renamer\<close>

subsection \<open>The new path\<close>

text \<open>
  C1, as far as it holds. For a path \<^verbatim>\<open>_posts/YYYY-MM-DD-<title>.md\<close> with digit groups of
  four, two and two digits and a title that contains no line feed, the new path is
  \<^verbatim>\<open>_posts/<today>-<title>.md\<close>, with today's date written as \<^verbatim>\<open>YYYY-MM-DD\<close>, and it
  is the target the script passes to \<^verbatim>\<open>os.rename\<close>.
\<close>

theorem new_post_replaces_date:
  assumes "digits 4 y" and "digits 2 m" and "digits 2 d" and "CHR 0x0A \<notin> set title"
  shows "new_post today (''_posts/'' @ y @ ''-'' @ m @ ''-'' @ d @ ''-'' @ title @ ''.md'')
         = Inr (''_posts/'' @ strftime_Ymd today @ ''-'' @ title @ ''.md'')
       \<and> rename_call (roll_post pf today
            (prog # (''_posts/'' @ y @ ''-'' @ m @ ''-'' @ d @ ''-'' @ title @ ''.md'') # rest) files)
         = Some (''_posts/'' @ y @ ''-'' @ m @ ''-'' @ d @ ''-'' @ title @ ''.md'',
                 ''_posts/'' @ strftime_Ymd today @ ''-'' @ title @ ''.md'')"
proof -
  from assms(4) have "list_all (accepts Dot) title" by (simp add: accepts_Dot_iff)
  from new_post_dated [OF assms(1-3) this]
  have n: "new_post today (''_posts/'' @ y @ ''-'' @ m @ ''-'' @ d @ ''-'' @ title @ ''.md'')
         = Inr (''_posts/'' @ strftime_Ymd today @ ''-'' @ title @ ''.md'')" .
  from roll_post_renames [OF n, of pf prog rest files] n show ?thesis
    by (simp split: sum.splits)
qed

text \<open>Scenario 1: \<^verbatim>\<open>_posts/2023-01-01-hello-world.md\<close>, run on 2024-06-15.\<close>

theorem new_post_replaces_date_witness:
  "digits 4 ''2023'' \<and> digits 2 ''01'' \<and> digits 2 ''01'' \<and> CHR 0x0A \<notin> set ''hello-world''
   \<and> new_post \<lparr>year = 2024, month = 6, day = 15\<rparr> ''_posts/2023-01-01-hello-world.md''
       = Inr ''_posts/2024-06-15-hello-world.md''"
proof -
  have h: "digits 4 ''2023''" "digits 2 ''01''" "CHR 0x0A \<notin> set ''hello-world''"
    by (simp_all add: digits_def)
  from new_post_replaces_date [OF h(1) h(2) h(2) h(3),
      where today = "\<lparr>year = 2024, month = 6, day = 15\<rparr>"] h
  show ?thesis by (simp add: strftime_Ymd_def digit_def)
qed

text \<open>
  Without the condition on the title C1 fails: \<^verbatim>\<open>.\<close> stops at a line feed, so for the
  title \<^verbatim>\<open>amd\nb\<close> the match ends inside the first line, the captured title is empty and the
  new path is \<^verbatim>\<open>_posts/2024-06-15-.md\<close>.
\<close>

theorem new_post_line_feed_counterexample:
  "new_post \<lparr>year = 2024, month = 6, day = 15\<rparr>
     (''_posts/2023-01-01-'' @ (''amd'' @ [CHR 0x0A] @ ''b'') @ ''.md'')
   = Inr ''_posts/2024-06-15-.md''
   \<and> ''_posts/2024-06-15-.md'' \<noteq> ''_posts/2024-06-15-'' @ (''amd'' @ [CHR 0x0A] @ ''b'') @ ''.md''"
  by code_simp

text \<open>
  C5. The captured title group is passed through unchanged. Whenever the pattern matches,
  the input is the \<^verbatim>\<open>_posts/\<close> prefix, the three digit groups with their hyphens, and
  then the captured title followed by one more character and \<^verbatim>\<open>md\<close>; the new path
  carries exactly that title between \<^verbatim>\<open><today>-\<close> and \<^verbatim>\<open>.md\<close>. Hyphens in the title
  play no part.
\<close>

theorem title_passed_through:
  assumes "re_match pattern post = Some gs"
  shows "\<exists>y m d title c rest.
           digits 4 y \<and> digits 2 m \<and> digits 2 d
         \<and> post = ''_posts/'' @ y @ ''-'' @ m @ ''-'' @ d @ ''-'' @ title @ [c] @ ''md'' @ rest
         \<and> groupdict gs ''title'' = Some title
         \<and> new_post today post = Inr (''_posts/'' @ strftime_Ymd today @ ''-'' @ title @ ''.md'')"
proof -
  from re_match_sound [OF assms] obtain y m d t c rest where
    p: "post = ''_posts/'' @ y @ ''-'' @ m @ ''-'' @ d @ ''-'' @ t @ c # ''md'' @ rest"
    and g: "gs = [(None, y), (None, m), (None, d), (Some ''title'', t)]"
    and dg: "digits 4 y" "digits 2 m" "digits 2 d"
    by blast
  from g have t: "groupdict gs ''title'' = Some t" by simp
  with assms have "new_post today post = Inr (''_posts/'' @ strftime_Ymd today @ ''-'' @ t @ ''.md'')"
    by (simp add: new_post_def parts_def)
  moreover from p have "post = ''_posts/'' @ y @ ''-'' @ m @ ''-'' @ d @ ''-'' @ t @ [c] @ ''md'' @ rest"
    by simp
  ultimately show ?thesis using t dg by blast
qed

text \<open>Scenario 2: the title \<^verbatim>\<open>a-b-c\<close>.\<close>

theorem title_passed_through_witness:
  "re_match pattern ''_posts/2023-01-01-a-b-c.md''
     = Some [(None, ''2023''), (None, ''01''), (None, ''01''), (Some ''title'', ''a-b-c'')]
   \<and> new_post \<lparr>year = 2024, month = 6, day = 15\<rparr> ''_posts/2023-01-01-a-b-c.md''
     = Inr ''_posts/2024-06-15-a-b-c.md''"
proof -
  have h: "re_match pattern ''_posts/2023-01-01-a-b-c.md''
     = Some [(None, ''2023''), (None, ''01''), (None, ''01''), (Some ''title'', ''a-b-c'')]"
    by code_simp
  from title_passed_through [OF h, of "\<lparr>year = 2024, month = 6, day = 15\<rparr>"] h
  show ?thesis by (auto simp: strftime_Ymd_def digit_def)
qed

text \<open>
  C6. For a path the pattern matches, two different valid dates give two different new
  paths: the formatted date determines the date, and the rest of the new path is the same.
\<close>

theorem new_post_differs_across_days:
  assumes "re_match pattern post = Some gs"
    and "valid_date d1" and "valid_date d2" and "d1 \<noteq> d2"
  shows "\<exists>p1 p2. new_post d1 post = Inr p1 \<and> new_post d2 post = Inr p2 \<and> p1 \<noteq> p2"
proof -
  from new_post_of_match [OF assms(1), of d1] obtain t where t: "groupdict gs ''title'' = Some t"
    and n1: "new_post d1 post = Inr (''_posts/'' @ strftime_Ymd d1 @ ''-'' @ t @ ''.md'')"
    by blast
  from new_post_of_match [OF assms(1), of d2] t
  have n2: "new_post d2 post = Inr (''_posts/'' @ strftime_Ymd d2 @ ''-'' @ t @ ''.md'')"
    by auto
  from assms(2-4) have "strftime_Ymd d1 \<noteq> strftime_Ymd d2"
    using strftime_Ymd_inj by blast
  then have "''_posts/'' @ strftime_Ymd d1 @ ''-'' @ t @ ''.md''
             \<noteq> ''_posts/'' @ strftime_Ymd d2 @ ''-'' @ t @ ''.md''"
    by (simp add: strftime_Ymd_def)
  with n1 n2 show ?thesis by blast
qed

theorem new_post_differs_across_days_witness:
  "re_match pattern ''_posts/2023-01-01-hello-world.md''
     = Some [(None, ''2023''), (None, ''01''), (None, ''01''), (Some ''title'', ''hello-world'')]
   \<and> valid_date \<lparr>year = 2024, month = 6, day = 15\<rparr>
   \<and> valid_date \<lparr>year = 2024, month = 6, day = 16\<rparr>
   \<and> \<lparr>year = 2024, month = 6, day = 15\<rparr> \<noteq> \<lparr>year = 2024, month = 6, day = 16\<rparr>
   \<and> (\<exists>p1 p2. new_post \<lparr>year = 2024, month = 6, day = 15\<rparr> ''_posts/2023-01-01-hello-world.md'' = Inr p1
            \<and> new_post \<lparr>year = 2024, month = 6, day = 16\<rparr> ''_posts/2023-01-01-hello-world.md'' = Inr p2
            \<and> p1 \<noteq> p2)"
proof -
  have h: "re_match pattern ''_posts/2023-01-01-hello-world.md''
     = Some [(None, ''2023''), (None, ''01''), (None, ''01''), (Some ''title'', ''hello-world'')]"
    by code_simp
  have v: "valid_date \<lparr>year = 2024, month = 6, day = 15\<rparr>"
    "valid_date \<lparr>year = 2024, month = 6, day = 16\<rparr>"
    by (simp_all add: valid_date_def)
  have ne: "\<lparr>year = 2024, month = 6, day = 15\<rparr> \<noteq> \<lparr>year = 2024, month = 6, day = (16::nat)\<rparr>"
    by simp
  from new_post_differs_across_days [OF h v ne] h v ne show ?thesis by blast
qed

text \<open>
  C9. The digits of the old date do not reach the new path: two paths that differ only in
  their digit groups give the same result on the same day, whatever follows the date. The
  digit groups need not form a date: month 99 and day 99 are accepted.
\<close>

theorem new_post_ignores_old_date:
  assumes "digits 4 y1" and "digits 2 m1" and "digits 2 d1"
    and "digits 4 y2" and "digits 2 m2" and "digits 2 d2"
  shows "new_post today (''_posts/'' @ y1 @ ''-'' @ m1 @ ''-'' @ d1 @ ''-'' @ u)
         = new_post today (''_posts/'' @ y2 @ ''-'' @ m2 @ ''-'' @ d2 @ ''-'' @ u)"
  unfolding new_post_def parts_dated [OF assms(1-3)] parts_dated [OF assms(4-6)] ..

theorem new_post_ignores_old_date_witness:
  "digits 4 ''2023'' \<and> digits 2 ''99'' \<and> digits 4 ''1999'' \<and> digits 2 ''12'' \<and> digits 2 ''31''
   \<and> new_post \<lparr>year = 2024, month = 6, day = 15\<rparr> ''_posts/2023-99-99-x.md''
     = new_post \<lparr>year = 2024, month = 6, day = 15\<rparr> ''_posts/1999-12-31-x.md''
   \<and> new_post \<lparr>year = 2024, month = 6, day = 15\<rparr> ''_posts/2023-99-99-x.md''
     = Inr ''_posts/2024-06-15-x.md''"
proof -
  have h: "digits 4 ''2023''" "digits 2 ''99''" "digits 4 ''1999''" "digits 2 ''12''" "digits 2 ''31''"
    by (simp_all add: digits_def)
  have n: "new_post \<lparr>year = 2024, month = 6, day = 15\<rparr> ''_posts/2023-99-99-x.md''
     = Inr ''_posts/2024-06-15-x.md''"
    by code_simp
  from new_post_ignores_old_date [OF h(1) h(2) h(2) h(3) h(4) h(5), where u = "''x.md''"] h n
  show ?thesis by simp
qed

subsection \<open>Paths that are refused, and paths that should be\<close>

text \<open>
  C4. A path that does not start with \<^verbatim>\<open>_posts/\<close> is not matched: \<^verbatim>\<open>groupdict\<close> raises
  \<^verbatim>\<open>AttributeError\<close> on \<^verbatim>\<open>None\<close>, the process ends with exit code 1, \<^verbatim>\<open>os.rename\<close> is
  never called and the files are as before.
\<close>

theorem wrong_prefix_aborts:
  assumes "\<not> prefix ''_posts/'' post"
  shows "roll_post pf today (prog # post # rest) files
         = \<lparr>exit_code = 1, raised = Some AttributeError, rename_call = None, disk = files\<rparr>"
  by (rule roll_post_no_match) (rule new_post_unprefixed [OF assms])

text \<open>Scenario 3: \<^verbatim>\<open>notes/2023-01-01-draft.md\<close>.\<close>

theorem wrong_prefix_aborts_witness:
  "\<not> prefix ''_posts/'' ''notes/2023-01-01-draft.md''
   \<and> roll_post Posix \<lparr>year = 2024, month = 6, day = 15\<rparr>
       [''roll_post.py'', ''notes/2023-01-01-draft.md'']
       \<lparr>entries = [(''notes'', Dir), (''notes/2023-01-01-draft.md'', File ''text'')], refusals = []\<rparr>
     = \<lparr>exit_code = 1, raised = Some AttributeError, rename_call = None,
        disk = \<lparr>entries = [(''notes'', Dir), (''notes/2023-01-01-draft.md'', File ''text'')],
                refusals = []\<rparr>\<rparr>"
proof -
  have h: "\<not> prefix ''_posts/'' ''notes/2023-01-01-draft.md''" by simp
  from wrong_prefix_aborts [OF h] h show ?thesis by simp
qed

text \<open>
  C2 asks that every path not of the form \<^verbatim>\<open>_posts/YYYY-MM-DD-<title>.md\<close> is refused, a path
  without the \<^verbatim>\<open>.md\<close> suffix among them. The script does not refuse all of them: the dot
  before \<^verbatim>\<open>md\<close> in the pattern is not escaped, so it stands for any character, and
  \<^verbatim>\<open>re.match\<close> does not look at what follows the match. The path
  \<^verbatim>\<open>_posts/2023-01-01-draft.cmd\<close> is matched with the title \<^verbatim>\<open>draft.\<close> and renamed to
  \<^verbatim>\<open>_posts/2024-06-15-draft..md\<close>.
\<close>

theorem roll_post_renames_without_md_suffix:
  "roll_post Posix \<lparr>year = 2024, month = 6, day = 15\<rparr>
     [''roll_post.py'', ''_posts/2023-01-01-draft.cmd'']
     \<lparr>entries = [(''_posts'', Dir), (''_posts/2023-01-01-draft.cmd'', File ''text'')], refusals = []\<rparr>
   = \<lparr>exit_code = 0, raised = None,
      rename_call = Some (''_posts/2023-01-01-draft.cmd'', ''_posts/2024-06-15-draft..md''),
      disk = \<lparr>entries = [(''_posts'', Dir), (''_posts/2024-06-15-draft..md'', File ''text'')],
              refusals = []\<rparr>\<rparr>"
  by (simp add: script_eval)

text \<open>
  In the same way text after \<^verbatim>\<open>.md\<close> is dropped: \<^verbatim>\<open>_posts/2023-01-01-hello.md.bak\<close>
  becomes \<^verbatim>\<open>_posts/2024-06-15-hello.md\<close>.
\<close>

lemma new_post_drops_trailing_text:
  "new_post \<lparr>year = 2024, month = 6, day = 15\<rparr> ''_posts/2023-01-01-hello.md.bak''
   = Inr ''_posts/2024-06-15-hello.md''"
  by code_simp

text \<open>
  C8. Without a positional argument \<^verbatim>\<open>sys.argv[1]\<close> raises \<^verbatim>\<open>IndexError\<close> on line 6:
  nothing is matched, \<^verbatim>\<open>os.rename\<close> is never called and the files are as before.
\<close>

theorem no_argument_aborts:
  assumes "length argv \<le> 1"
  shows "roll_post pf today argv files
         = \<lparr>exit_code = 1, raised = Some IndexError, rename_call = None, disk = files\<rparr>"
  using assms by (simp add: roll_post_def)

theorem no_argument_aborts_witness:
  "length [''roll_post.py''] \<le> 1
   \<and> roll_post Posix \<lparr>year = 2024, month = 6, day = 15\<rparr> [''roll_post.py'']
       \<lparr>entries = [(''_posts'', Dir), (''_posts/2023-01-01-hello-world.md'', File ''text'')],
        refusals = []\<rparr>
     = \<lparr>exit_code = 1, raised = Some IndexError, rename_call = None,
        disk = \<lparr>entries = [(''_posts'', Dir), (''_posts/2023-01-01-hello-world.md'', File ''text'')],
                refusals = []\<rparr>\<rparr>"
proof -
  have h: "length [''roll_post.py''] \<le> 1" by simp
  from no_argument_aborts [OF h] h show ?thesis by simp
qed



subsection \<open>The rename and the exit code\<close>




text \<open>
  C7. The exit code is 0 exactly when there is an argument, the pattern matches it and
  \<^verbatim>\<open>os.rename\<close> succeeds; otherwise an exception ends the process with exit code 1.
\<close>

theorem exit_code_zero_iff:
  "(exit_code (roll_post pf today argv files) = 0 \<longleftrightarrow>
      (\<exists>prog post rest gs title files'.
          argv = prog # post # rest
        \<and> re_match pattern post = Some gs \<and> groupdict gs ''title'' = Some title
        \<and> os_rename pf post (''_posts/'' @ strftime_Ymd today @ ''-'' @ title @ ''.md'') files
            = Inr files'))
   \<and> (exit_code (roll_post pf today argv files) = 0 \<and> raised (roll_post pf today argv files) = None
      \<or> exit_code (roll_post pf today argv files) = 1 \<and> raised (roll_post pf today argv files) \<noteq> None)"
proof (cases "drop 1 argv")
  case Nil
  then have "roll_post pf today argv files
    = \<lparr>exit_code = 1, raised = Some IndexError, rename_call = None, disk = files\<rparr>"
    by (simp add: roll_post_def)
  moreover from Nil have "\<nexists>prog post rest. argv = prog # post # rest" by auto
  ultimately show ?thesis by simp
next
  case (Cons post rest)
  then obtain prog where argv: "argv = prog # post # rest"
    by (cases argv) auto
  show ?thesis
  proof (cases "re_match pattern post")
    case None
    then have "new_post today post = Inl AttributeError"
      by (simp add: new_post_def parts_def)
    from roll_post_no_match [OF this] None argv show ?thesis by simp
  next
    case (Some gs)
    from new_post_of_match [OF Some, of today] obtain t where
      t: "groupdict gs ''title'' = Some t"
      and n: "new_post today post = Inr (''_posts/'' @ strftime_Ymd today @ ''-'' @ t @ ''.md'')"
      by blast
    from roll_post_renames [OF n] Some t argv show ?thesis
      by (cases "os_rename pf post (''_posts/'' @ strftime_Ymd today @ ''-'' @ t @ ''.md'') files")
        simp_all
  qed
qed

text \<open>A successful run, and a run on a source file that is missing.\<close>

theorem exit_code_zero_iff_witness:
  "exit_code (roll_post Posix \<lparr>year = 2024, month = 6, day = 15\<rparr>
      [''roll_post.py'', ''_posts/2023-01-01-hello-world.md'']
      \<lparr>entries = [(''_posts'', Dir), (''_posts/2023-01-01-hello-world.md'', File ''text'')],
       refusals = []\<rparr>) = 0
   \<and> (\<exists>gs title files'.
          re_match pattern ''_posts/2023-01-01-hello-world.md'' = Some gs
        \<and> groupdict gs ''title'' = Some title
        \<and> os_rename Posix ''_posts/2023-01-01-hello-world.md''
             (''_posts/'' @ strftime_Ymd \<lparr>year = 2024, month = 6, day = 15\<rparr> @ ''-'' @ title @ ''.md'')
             \<lparr>entries = [(''_posts'', Dir), (''_posts/2023-01-01-hello-world.md'', File ''text'')],
              refusals = []\<rparr> = Inr files')
   \<and> exit_code (roll_post Posix \<lparr>year = 2024, month = 6, day = 15\<rparr>
      [''roll_post.py'', ''_posts/2023-01-01-hello-world.md'']
      \<lparr>entries = [(''_posts'', Dir)], refusals = []\<rparr>) = 1"
proof -
  have a: "exit_code (roll_post Posix \<lparr>year = 2024, month = 6, day = 15\<rparr>
      [''roll_post.py'', ''_posts/2023-01-01-hello-world.md'']
      \<lparr>entries = [(''_posts'', Dir), (''_posts/2023-01-01-hello-world.md'', File ''text'')],
       refusals = []\<rparr>) = 0"
    by (simp add: script_eval)
  have b: "exit_code (roll_post Posix \<lparr>year = 2024, month = 6, day = 15\<rparr>
      [''roll_post.py'', ''_posts/2023-01-01-hello-world.md'']
      \<lparr>entries = [(''_posts'', Dir)], refusals = []\<rparr>) = 1"
    by (simp add: script_eval)
  from exit_code_zero_iff [where pf = Posix
      and today = "\<lparr>year = 2024, month = 6, day = 15\<rparr>"
      and argv = "[''roll_post.py'', ''_posts/2023-01-01-hello-world.md'']"
      and files = "\<lparr>entries = [(''_posts'', Dir),
                      (''_posts/2023-01-01-hello-world.md'', File ''text'')],
                    refusals = []\<rparr>"] a b
  show ?thesis by auto
qed

end
